theory Spec2Isabelle
  imports Complex_Main "HOL-Library.Sublist"
begin

section \<open>Python values and helpers\<close>

text \<open>
  A decoded JSON document (what \<^verbatim>\<open>json.loads\<close> returns, and what Cromwell's
  metadata holds under \<^verbatim>\<open>inputs\<close> and \<^verbatim>\<open>outputs\<close>): mappings keep their insertion
  order and are only ever iterated with \<^verbatim>\<open>.items()\<close>, so a mapping is an association
  list. \<open>JNull\<close> is Python's \<^verbatim>\<open>None\<close>. Lists and tuples are both \<open>JArr\<close>.
\<close>

datatype json =
    JNull
  | JBool bool
  | JInt int
  | JFloat rat
  | JStr string
  | JArr "json list"
  | JObj "(string \<times> json) list"

text \<open>The exceptions of the module: the two it raises itself and those of its collaborators.\<close>

datatype error =
    ValueError string
  | KeyError string
  | AttributeError string
  | CollaboratorError string

text \<open>\<^verbatim>\<open>sep.join(xs)\<close>.\<close>

fun join :: "string \<Rightarrow> string list \<Rightarrow> string" where
  "join sep [] = []"
| "join sep [x] = x"
| "join sep (x # y # ys) = x @ sep @ join sep (y # ys)"

text \<open>\<^verbatim>\<open>s.split(sep)\<close> for a one-character separator: never an empty list.\<close>

fun split :: "char \<Rightarrow> string \<Rightarrow> string list" where
  "split sep [] = [[]]"
| "split sep (c # cs) =
     (if c = sep then [] # split sep cs
      else (case split sep cs of [] \<Rightarrow> [[c]] | w # ws \<Rightarrow> (c # w) # ws))"

text \<open>
  \<^verbatim>\<open>str.isspace\<close> on one character and \<^verbatim>\<open>str.strip()\<close>. A character of the model
  is a code point below 256, and these are the white-space code points in that range,
  the same for \<^verbatim>\<open>\s\<close> in a pattern over \<^verbatim>\<open>str\<close>: tab, line feed, vertical tab, form
  feed, carriage return, the four separators 0x1C to 0x1F, space, next line (0x85)
  and no-break space (0xA0).
\<close>

definition isspace :: "char \<Rightarrow> bool" where
  "isspace c = (c \<in> set [CHR 0x09, CHR 0x0A, CHR 0x0B, CHR 0x0C, CHR 0x0D,
                          CHR 0x1C, CHR 0x1D, CHR 0x1E, CHR 0x1F, CHR 0x20,
                          CHR 0x85, CHR 0xA0])"

definition strip :: "string \<Rightarrow> string" where
  "strip s = rev (dropWhile isspace (rev (dropWhile isspace s)))"

section \<open>Nodes and the parent relation\<close>

text \<open>A triple \<^verbatim>\<open>(field_path, locator, list_idx)\<close> as the scanner returns it.\<close>

type_synonym triple = "string \<times> string \<times> int list"

text \<open>
  \<^verbatim>\<open>CMNode\<close>, the named tuple. \<open>type\<close> is a string; the fields that the module fills
  with \<^verbatim>\<open>None\<close> are options; \<open>shard_idx\<close> is always given a tuple of integers.
\<close>

record cmnode =
  type :: string
  shard_idx :: "int list"
  task_name :: "string option"
  output_name :: "string option"
  output_path :: "string option"
  all_outputs :: "triple list option"
  all_inputs :: "triple list option"

text \<open>\<^verbatim>\<open>is_parent_cmnode(n1, n2)\<close>: \<open>Inl\<close> is the raised \<^verbatim>\<open>ValueError\<close>.\<close>

definition is_parent_cmnode :: "cmnode \<Rightarrow> cmnode \<Rightarrow> error + bool" where
  "is_parent_cmnode n1 n2 =
     (if type n1 \<notin> {''task'', ''output''} \<or> type n2 \<notin> {''task'', ''output''}
      then Inl (ValueError (''Unsupported CMNode type: '' @ type n1 @ ''.''))
      else if type n1 = ''task'' \<and> type n2 = ''output''
      then Inr (task_name n1 = task_name n2 \<and> shard_idx n1 = shard_idx n2)
      else if type n1 = ''output'' \<and> type n2 = ''task''
      then Inr (case all_inputs n2 of
                  None \<Rightarrow> False
                | Some ins \<Rightarrow> output_path n1 \<in> set (map (\<lambda>(_, path, _). Some path) ins))
      else Inr False)"

section \<open>The scanner\<close>

text \<open>
  \<^verbatim>\<open>find_files_in_dict(d, parent, list_idx)\<close>. The validator \<^verbatim>\<open>AutoURI(d).is_valid\<close>
  belongs to another package and is the parameter \<open>is_valid\<close>. The two \<^verbatim>\<open>for\<close> loops
  are \<open>find_files_items\<close> (over \<^verbatim>\<open>d.items()\<close>) and \<open>find_files_enum\<close> (over
  \<^verbatim>\<open>enumerate(d)\<close>, with the running index); \<^verbatim>\<open>files.extend\<close> is \<open>@\<close>.
\<close>

function find_files_in_dict ::
    "(string \<Rightarrow> bool) \<Rightarrow> json \<Rightarrow> string list \<Rightarrow> int list \<Rightarrow> triple list"
  and find_files_items ::
    "(string \<Rightarrow> bool) \<Rightarrow> (string \<times> json) list \<Rightarrow> string list \<Rightarrow> int list \<Rightarrow> triple list"
  and find_files_enum ::
    "(string \<Rightarrow> bool) \<Rightarrow> int \<Rightarrow> json list \<Rightarrow> string list \<Rightarrow> int list \<Rightarrow> triple list"
where
  "find_files_in_dict is_valid (JObj kvs) parent list_idx =
     find_files_items is_valid kvs parent list_idx"
| "find_files_in_dict is_valid (JArr vs) parent list_idx =
     find_files_enum is_valid 0 vs parent list_idx"
| "find_files_in_dict is_valid (JStr d) parent list_idx =
     (if is_valid d
      then [(join ''.'' parent, d, if list_idx \<noteq> [] then list_idx else [-1])]
      else [])"
| "find_files_in_dict is_valid JNull parent list_idx = []"
| "find_files_in_dict is_valid (JBool b) parent list_idx = []"
| "find_files_in_dict is_valid (JInt n) parent list_idx = []"
| "find_files_in_dict is_valid (JFloat x) parent list_idx = []"
| "find_files_items is_valid [] parent list_idx = []"
| "find_files_items is_valid ((k, v) # kvs) parent list_idx =
     find_files_in_dict is_valid v (parent @ [k]) list_idx
     @ find_files_items is_valid kvs parent list_idx"
| "find_files_enum is_valid i [] parent list_idx = []"
| "find_files_enum is_valid i (v # vs) parent list_idx =
     find_files_in_dict is_valid v parent (list_idx @ [i])
     @ find_files_enum is_valid (i + 1) vs parent list_idx"
  by pat_completeness auto
termination
  by (relation "measure (\<lambda>x. case x of
        Inl (_, d, _, _) \<Rightarrow> size d
      | Inr (Inl (_, kvs, _, _)) \<Rightarrow> size_list (size_prod (\<lambda>_. 0) size) kvs
      | Inr (Inr (_, _, vs, _, _)) \<Rightarrow> size_list size vs)") auto

text \<open>
  The strings of a document that the validator accepts, in document order: what the
  specification calls the qualifying strings.
\<close>

fun qualifying :: "(string \<Rightarrow> bool) \<Rightarrow> json \<Rightarrow> string list"
  and qualifying_items :: "(string \<Rightarrow> bool) \<Rightarrow> (string \<times> json) list \<Rightarrow> string list"
  and qualifying_list :: "(string \<Rightarrow> bool) \<Rightarrow> json list \<Rightarrow> string list"
where
  "qualifying is_valid (JObj kvs) = qualifying_items is_valid kvs"
| "qualifying is_valid (JArr vs) = qualifying_list is_valid vs"
| "qualifying is_valid (JStr d) = (if is_valid d then [d] else [])"
| "qualifying is_valid JNull = []"
| "qualifying is_valid (JBool b) = []"
| "qualifying is_valid (JInt n) = []"
| "qualifying is_valid (JFloat x) = []"
| "qualifying_items is_valid [] = []"
| "qualifying_items is_valid ((k, v) # kvs) = qualifying is_valid v @ qualifying_items is_valid kvs"
| "qualifying_list is_valid [] = []"
| "qualifying_list is_valid (v # vs) = qualifying is_valid v @ qualifying_list is_valid vs"

section \<open>The execution record\<close>

text \<open>
  The metadata document, typed as Cromwell writes it. A key that may be missing is an
  option: \<open>None\<close> is the missing key, and reading it with \<^verbatim>\<open>[...]\<close> raises
  \<^verbatim>\<open>KeyError\<close>. \<open>workflow_id\<close> is the key \<^verbatim>\<open>id\<close>. A sub-workflow's record is a
  metadata document itself.
\<close>

record submitted_files =
  sf_inputs :: "string option"
  sf_workflow :: "string option"

datatype call =
    Call (shardIndex: "int option") (subWorkflowMetadata: "metadata option")
         (inputs: "json option") (outputs: "json option")
  and metadata =
    Metadata (submittedFiles: "submitted_files option") (workflow_id: "string option")
             (workflowName: "string option") (calls: "(string \<times> call list) list option")

section \<open>The call-tree parser\<close>

text \<open>
  The head of the loop over \<^verbatim>\<open>calls.items()\<close>: the call name split on the dot gives
  the alias, \<open>None\<close> for a temporary scatter sub-workflow.
\<close>

definition parse_call_name :: "string \<Rightarrow> error + string option" where
  "parse_call_name call_name =
     (let split_call_name = split CHR ''.'' call_name in
      if length split_call_name = 2 then Inr (Some (split_call_name ! 1))
      else if length split_call_name = 1 then
        (if \<not> prefix ''ScatterAt'' call_name
         then Inl (ValueError ''Wrong temporary call name format for a nested subworkflow.'')
         else Inr None)
      else Inl (ValueError ''Wrong call name format. Too many dots.''))"

text \<open>
  \<^verbatim>\<open>(wf for wf in none_free_parent_workflows if wf)\<close>: the filter is Python's truth
  value, which drops \<^verbatim>\<open>None\<close> and the empty string.
\<close>

definition none_free :: "string option list \<Rightarrow> string list" where
  "none_free wfs = [w. Some w \<leftarrow> wfs, w \<noteq> []]"

text \<open>\<^verbatim>\<open>tuple(files) if files else None\<close>: \<^verbatim>\<open>None\<close> and the empty list are both false.\<close>

definition if_files :: "triple list option \<Rightarrow> triple list option" where
  "if_files files =
     (case files of None \<Rightarrow> None | Some [] \<Rightarrow> None | Some (f # fs) \<Rightarrow> Some (f # fs))"

text \<open>The two node constructions of the parser.\<close>

definition task_cmnode ::
  "string \<Rightarrow> int list \<Rightarrow> triple list option \<Rightarrow> triple list option \<Rightarrow> cmnode" where
  "task_cmnode full_call_name idx out_files in_files =
     \<lparr>type = ''task'', shard_idx = idx, task_name = Some full_call_name,
      output_name = None, output_path = None,
      all_outputs = if_files out_files, all_inputs = if_files in_files\<rparr>"

definition output_cmnode :: "string option \<Rightarrow> int list \<Rightarrow> string \<Rightarrow> string \<Rightarrow> cmnode" where
  "output_cmnode name idx out_name out_path =
     \<lparr>type = ''output'', shard_idx = idx, task_name = name,
      output_name = Some out_name, output_path = Some out_path,
      all_outputs = None, all_inputs = None\<rparr>"

text \<open>
  The body of the inner loop for an invocation that is not a sub-workflow: the nodes
  handed to \<^verbatim>\<open>add_node\<close>, in order. \<open>idx0\<close> is the invocation's own \<^verbatim>\<open>shardIndex\<close>.
\<close>

definition task_cmnodes ::
  "(string \<Rightarrow> bool) \<Rightarrow> string option \<Rightarrow> call \<Rightarrow> int \<Rightarrow> string option list \<Rightarrow> int list
     \<Rightarrow> cmnode list" where
  "task_cmnodes is_valid subworkflow_or_task_alias c idx0 parent_workflows
       parent_workflow_shard_indices =
     (let full_call_name = join ''.'' (none_free (parent_workflows @ [subworkflow_or_task_alias]));
          idx = parent_workflow_shard_indices @ [idx0];
          in_files = map_option (\<lambda>d. find_files_in_dict is_valid d [] []) (inputs c);
          out_files = map_option (\<lambda>d. find_files_in_dict is_valid d [] []) (outputs c)
      in task_cmnode full_call_name idx out_files in_files
         # (case if_files out_files of
              None \<Rightarrow> []
            | Some fs \<Rightarrow>
                map (\<lambda>(out_name, out_path, _).
                       output_cmnode (Some full_call_name) idx out_name out_path) fs))"

text \<open>
  \<^verbatim>\<open>__parse_calls\<close>. The graph engine (\<^verbatim>\<open>croo/dag.py\<close>) only receives nodes here, so
  the result is the list of nodes passed to \<^verbatim>\<open>add_node\<close>, in call order, or the
  exception raised. \<open>parse_calls_items\<close> is the loop over \<^verbatim>\<open>calls.items()\<close>,
  \<open>parse_call_list\<close> the loop over one \<^verbatim>\<open>call_list\<close>. The ancestor chain is always a
  tuple, so the entry check is the emptiness test.
\<close>

function parse_calls ::
    "(string \<Rightarrow> bool) \<Rightarrow> (string \<times> call list) list \<Rightarrow> string option list \<Rightarrow> int list
       \<Rightarrow> error + cmnode list"
  and parse_calls_items ::
    "(string \<Rightarrow> bool) \<Rightarrow> (string \<times> call list) list \<Rightarrow> string option list \<Rightarrow> int list
       \<Rightarrow> error + cmnode list"
  and parse_call_list ::
    "(string \<Rightarrow> bool) \<Rightarrow> string option \<Rightarrow> call list \<Rightarrow> string option list \<Rightarrow> int list
       \<Rightarrow> error + cmnode list"
where
  "parse_calls is_valid cs parent_workflows parent_workflow_shard_indices =
     (if parent_workflows = []
      then Inl (ValueError (''parent_workflows must be defined as non-empty tuple. ''
                 @ ''If it is a root calling of this function ''
                 @ ''then call with parent_workflows=(main_workflow_name,).''))
      else parse_calls_items is_valid cs parent_workflows parent_workflow_shard_indices)"
| "parse_calls_items is_valid [] pw ps = Inr []"
| "parse_calls_items is_valid ((call_name, call_list) # rest) pw ps =
     (case parse_call_name call_name of
        Inl e \<Rightarrow> Inl e
      | Inr subworkflow_or_task_alias \<Rightarrow>
          (case parse_call_list is_valid subworkflow_or_task_alias call_list pw ps of
             Inl e \<Rightarrow> Inl e
           | Inr ns \<Rightarrow>
               (case parse_calls_items is_valid rest pw ps of
                  Inl e \<Rightarrow> Inl e
                | Inr ms \<Rightarrow> Inr (ns @ ms))))"
| "parse_call_list is_valid alias [] pw ps = Inr []"
| "parse_call_list is_valid alias (c # cl) pw ps =
     (case shardIndex c of
        None \<Rightarrow> Inl (KeyError ''shardIndex'')
      | Some idx \<Rightarrow>
          (case subWorkflowMetadata c of
             Some sub \<Rightarrow>
               (case calls sub of
                  None \<Rightarrow> Inl (KeyError ''calls'')
                | Some sub_calls \<Rightarrow>
                    (case parse_calls is_valid sub_calls (pw @ [alias]) (ps @ [idx]) of
                       Inl e \<Rightarrow> Inl e
                     | Inr ns \<Rightarrow>
                         (case parse_call_list is_valid alias cl pw ps of
                            Inl e \<Rightarrow> Inl e
                          | Inr ms \<Rightarrow> Inr (ns @ ms))))
           | None \<Rightarrow>
               (case parse_call_list is_valid alias cl pw ps of
                  Inl e \<Rightarrow> Inl e
                | Inr ms \<Rightarrow> Inr (task_cmnodes is_valid alias c idx pw ps @ ms))))"
  by pat_completeness auto
termination
  apply (relation "measure (\<lambda>x. case x of
        Inl (_, cs, _, _) \<Rightarrow> 2 * size_list (size_prod (\<lambda>_. 0) (size_list size)) cs + 1
      | Inr (Inl (_, cs, _, _)) \<Rightarrow> 2 * size_list (size_prod (\<lambda>_. 0) (size_list size)) cs
      | Inr (Inr (_, _, cl, _, _)) \<Rightarrow> 2 * size_list size cl)")
       apply simp_all
  subgoal for c cl idx sub sub_calls
    by (cases c; cases sub) simp
  done

text \<open>
  A node of a leaf invocation somewhere below the ancestor chain \<open>pw\<close> and the shard
  chain \<open>ps\<close>: the two chains grow together, one entry for each sub-workflow level.
\<close>

definition leaf_of :: "(string \<Rightarrow> bool) \<Rightarrow> string option list \<Rightarrow> int list \<Rightarrow> cmnode \<Rightarrow> bool" where
  "leaf_of v pw ps n \<longleftrightarrow>
     (\<exists>rest more alias c idx. length more = length rest \<and> shardIndex c = Some idx
        \<and> subWorkflowMetadata c = None
        \<and> n \<in> set (task_cmnodes v alias c idx (pw @ rest) (ps @ more)))"

text \<open>
  The non-absent entries of a chain, in the words of the specification: only \<^verbatim>\<open>None\<close>
  is left out.
\<close>

definition non_absent :: "string option list \<Rightarrow> string list" where
  "non_absent wfs = [w. Some w \<leftarrow> wfs]"

section \<open>The output-definition lookup\<close>

text \<open>
  The parsed workflow source as far as the lookup reads it: \<^verbatim>\<open>wdl.workflow\<close> (absent
  for a document without a workflow) and its \<^verbatim>\<open>meta\<close> mapping. The parser
  \<^verbatim>\<open>WDL.parse_document\<close> is the parameter \<open>parse_document\<close>, which returns the
  document or raises.
\<close>

record wdl_workflow =
  meta :: "string \<rightharpoonup> json"

record wdl_document =
  workflow :: "wdl_workflow option"

definition WDL_WORKFLOW_META_OUT_DEF :: string where
  "WDL_WORKFLOW_META_OUT_DEF = ''croo_out_def''"

text \<open>
  \<^verbatim>\<open>re.findall(RE_PATTERN_WDL_COMMENT_OUT_DEF_JSON, line)\<close> on a line without a line
  feed. The pattern is anchored at the start, every \<^verbatim>\<open>\s*\<close> and \<^verbatim>\<open>\s+\<close> is followed by a
  character that is not white space, and \<^verbatim>\<open>(.+)\<close> takes the rest of the line: there is at
  most one match, and the result is its group.
\<close>

definition RE_PATTERN_WDL_COMMENT_OUT_DEF_JSON :: "string \<Rightarrow> string list" where
  "RE_PATTERN_WDL_COMMENT_OUT_DEF_JSON line =
     (case dropWhile isspace line of
        [] \<Rightarrow> []
      | h # l1 \<Rightarrow>
          if h \<noteq> CHR ''#'' then []
          else
            (let l2 = dropWhile isspace l1 in
             if \<not> prefix ''CROO'' l2 then []
             else
               (let l3 = drop 4 l2; l4 = dropWhile isspace l3 in
                if l4 = l3 \<or> \<not> prefix ''out_def'' l4 then []
                else
                  (case drop 7 l4 of
                     s # g # gs \<Rightarrow> if isspace s then [g # gs] else []
                   | _ \<Rightarrow> []))))"

text \<open>
  The body of the \<^verbatim>\<open>try\<close> of \<^verbatim>\<open>__find_workflow_meta\<close>: \<open>Inr (Some v)\<close> is the
  \<^verbatim>\<open>return\<close> inside it, \<open>Inr None\<close> leaving it without a return, \<open>Inl\<close> an exception.
\<close>

definition find_workflow_meta_try ::
  "(string \<Rightarrow> error + wdl_document) \<Rightarrow> string \<Rightarrow> string \<Rightarrow> error + json option" where
  "find_workflow_meta_try parse_document wdl_str key =
     (case parse_document wdl_str of
        Inl e \<Rightarrow> Inl e
      | Inr wdl \<Rightarrow>
          (case workflow wdl of
             None \<Rightarrow> Inl (AttributeError ''meta'')
           | Some w \<Rightarrow> (case meta w key of Some v \<Rightarrow> Inr (Some v) | None \<Rightarrow> Inr None)))"

text \<open>
  \<^verbatim>\<open>__find_workflow_meta\<close>: \<^verbatim>\<open>except Exception: pass\<close>, then \<^verbatim>\<open>return None\<close>. The
  result is a Python value, \<open>JNull\<close> for \<^verbatim>\<open>None\<close>.
\<close>

definition find_workflow_meta ::
  "(string \<Rightarrow> error + wdl_document) \<Rightarrow> string \<Rightarrow> string \<Rightarrow> error + json" where
  "find_workflow_meta parse_document wdl_str key =
     (case find_workflow_meta_try parse_document wdl_str key of
        Inr (Some v) \<Rightarrow> Inr v
      | Inr None \<Rightarrow> Inr JNull
      | Inl e \<Rightarrow> Inr JNull)"

text \<open>
  \<^verbatim>\<open>__find_val_from_wdl(regex_val)\<close>: \<open>regex_val\<close> stands for
  \<^verbatim>\<open>re.findall(regex_val, line)\<close>; \<open>find_val_lines\<close> is the loop over the lines.
\<close>

fun find_val_lines :: "(string \<Rightarrow> string list) \<Rightarrow> string list \<Rightarrow> string list" where
  "find_val_lines regex_val [] = []"
| "find_val_lines regex_val (line # lines) =
     (case regex_val line of
        [] \<Rightarrow> find_val_lines regex_val lines
      | r0 # _ \<Rightarrow>
          (let ret = strip r0 in
           if length ret > 0 then ret # find_val_lines regex_val lines
           else find_val_lines regex_val lines))"

definition find_val_from_wdl :: "(string \<Rightarrow> string list) \<Rightarrow> string \<Rightarrow> string list" where
  "find_val_from_wdl regex_val wdl_str = find_val_lines regex_val (split CHR 0x0A wdl_str)"

text \<open>\<^verbatim>\<open>__find_out_def_from_wdl\<close>.\<close>

definition find_out_def_from_wdl ::
  "(string \<Rightarrow> error + wdl_document) \<Rightarrow> string \<Rightarrow> error + json" where
  "find_out_def_from_wdl parse_document wdl_str =
     (case find_workflow_meta parse_document wdl_str WDL_WORKFLOW_META_OUT_DEF of
        Inl e \<Rightarrow> Inl e
      | Inr r \<Rightarrow>
          if r \<noteq> JNull then Inr r
          else
            (case find_val_from_wdl RE_PATTERN_WDL_COMMENT_OUT_DEF_JSON wdl_str of
               [] \<Rightarrow> Inr JNull
             | r0 # _ \<Rightarrow> Inr (JStr r0)))"

section \<open>The graph builder\<close>

text \<open>\<^verbatim>\<open>__parse_input_json\<close>: the nodes passed to \<^verbatim>\<open>add_node\<close>.\<close>

definition parse_input_json :: "(string \<Rightarrow> bool) \<Rightarrow> json \<Rightarrow> cmnode list" where
  "parse_input_json is_valid input_json =
     (if input_json = JNull then []
      else map (\<lambda>(file_name, file_path, idx). output_cmnode None idx file_name file_path)
             (find_files_in_dict is_valid input_json [] []))"

text \<open>
  The object that \<^verbatim>\<open>CromwellMetadata.__init__\<close> builds. \<open>self_dag\<close> is the list of
  nodes added to the graph, in order; \<^verbatim>\<open>None\<close> is \<open>JNull\<close> for the two fields that hold
  Python values.
\<close>

record cromwell_metadata =
  self_input_json :: json
  self_wdl_str :: "string option"
  self_out_def_json_file :: json
  self_workflow_id :: string
  self_dag :: "cmnode list"

text \<open>The part of \<^verbatim>\<open>__init__\<close> after the \<^verbatim>\<open>submittedFiles\<close> branch.\<close>

definition init_graph ::
  "(string \<Rightarrow> bool) \<Rightarrow> metadata \<Rightarrow> json \<Rightarrow> string option \<Rightarrow> json
     \<Rightarrow> error + cromwell_metadata" where
  "init_graph is_valid metadata_json input_json wdl_str out_def =
     (case workflow_id metadata_json of
        None \<Rightarrow> Inl (KeyError ''id'')
      | Some wid \<Rightarrow>
          (case calls metadata_json of
             None \<Rightarrow> Inl (KeyError ''calls'')
           | Some cs \<Rightarrow>
               (case workflowName metadata_json of
                  None \<Rightarrow> Inl (KeyError ''workflowName'')
                | Some name \<Rightarrow>
                    (case parse_calls is_valid cs [Some name] [] of
                       Inl e \<Rightarrow> Inl e
                     | Inr ns \<Rightarrow>
                         Inr \<lparr>self_input_json = input_json, self_wdl_str = wdl_str,
                              self_out_def_json_file = out_def, self_workflow_id = wid,
                              self_dag = ns @ parse_input_json is_valid input_json\<rparr>))))"

text \<open>
  \<^verbatim>\<open>CromwellMetadata.__init__\<close>. \<^verbatim>\<open>json.loads\<close> is the parameter \<open>json_loads\<close>, which
  returns the decoded document or raises.
\<close>

definition init ::
  "(string \<Rightarrow> bool) \<Rightarrow> (string \<Rightarrow> error + json) \<Rightarrow> (string \<Rightarrow> error + wdl_document)
     \<Rightarrow> metadata \<Rightarrow> error + cromwell_metadata" where
  "init is_valid json_loads parse_document metadata_json =
     (case submittedFiles metadata_json of
        Some sf \<Rightarrow>
          (case sf_inputs sf of
             None \<Rightarrow> Inl (KeyError ''inputs'')
           | Some s \<Rightarrow>
               (case json_loads s of
                  Inl e \<Rightarrow> Inl e
                | Inr input_json \<Rightarrow>
                    (case sf_workflow sf of
                       None \<Rightarrow> Inl (KeyError ''workflow'')
                     | Some w \<Rightarrow>
                         (case find_out_def_from_wdl parse_document w of
                            Inl e \<Rightarrow> Inl e
                          | Inr out_def \<Rightarrow>
                              init_graph is_valid metadata_json input_json (Some w) out_def))))
      | None \<Rightarrow> init_graph is_valid metadata_json JNull None JNull)"

section \<open>The scanner: lemmas\<close>

text \<open>The two loops of the scanner, as concatenations over the container.\<close>

lemma find_files_items_concat:
  "find_files_items is_valid kvs parent list_idx =
     concat (map (\<lambda>(k, v). find_files_in_dict is_valid v (parent @ [k]) list_idx) kvs)"
  by (induction kvs) auto

lemma find_files_enum_from:
  "find_files_enum is_valid n vs parent list_idx =
     concat (map (\<lambda>j. find_files_in_dict is_valid (vs ! j) parent (list_idx @ [n + int j]))
                 [0..<length vs])"
proof (induction vs arbitrary: n)
  case Nil
  then show ?case by simp
next
  case (Cons v vs)
  have "[0..<length (v # vs)] = 0 # map Suc [0..<length vs]"
    by (simp add: upt_conv_Cons map_Suc_upt del: upt_Suc)
  then show ?case
    by (simp add: Cons.IH comp_def add.assoc del: upt_Suc)
qed

text \<open>The locators of the result are the qualifying strings, in document order.\<close>

lemma locators_qualifying:
  "map (\<lambda>(_, path, _). path) (find_files_in_dict is_valid d parent list_idx) = qualifying is_valid d"
  "map (\<lambda>(_, path, _). path) (find_files_items is_valid kvs parent list_idx) = qualifying_items is_valid kvs"
  "map (\<lambda>(_, path, _). path) (find_files_enum is_valid n vs parent list_idx) = qualifying_list is_valid vs"
  by (induction is_valid d parent list_idx and is_valid kvs parent list_idx and is_valid n vs parent list_idx
      rule: find_files_in_dict_find_files_items_find_files_enum.induct) simp_all

text \<open>
  The list index of a triple is never empty, and it extends the index the scan was
  started with.
\<close>

lemma list_idx_of:
  "\<forall>t \<in> set (find_files_in_dict is_valid d parent list_idx). snd (snd t) \<noteq> [] \<and> (list_idx \<noteq> [] \<longrightarrow> prefix list_idx (snd (snd t)))"
  "\<forall>t \<in> set (find_files_items is_valid kvs parent list_idx). snd (snd t) \<noteq> [] \<and> (list_idx \<noteq> [] \<longrightarrow> prefix list_idx (snd (snd t)))"
  "\<forall>t \<in> set (find_files_enum is_valid n vs parent list_idx). snd (snd t) \<noteq> [] \<and> (list_idx \<noteq> [] \<longrightarrow> prefix list_idx (snd (snd t)))"
  by (induction is_valid d parent list_idx and is_valid kvs parent list_idx and is_valid n vs parent list_idx
      rule: find_files_in_dict_find_files_items_find_files_enum.induct) (auto dest: append_prefixD)

section \<open>The parent relation\<close>

text \<open>
  Claim C1, as stated: for two task nodes, or two output nodes, the predicate raises.
  The code raises only for a node whose \<open>type\<close> is neither \<^verbatim>\<open>task\<close> nor
  \<^verbatim>\<open>output\<close>; two task nodes and two output nodes both reach the final
  \<^verbatim>\<open>return False\<close>.
\<close>

theorem is_parent_cmnode_same_variant_counterexample:
  "is_parent_cmnode (task_cmnode ''wf.a'' [-1] None None) (task_cmnode ''wf.b'' [-1] None None)
     = Inr False
   \<and> is_parent_cmnode (output_cmnode (Some ''wf.a'') [-1] ''out'' ''gs://b/x'')
        (output_cmnode (Some ''wf.a'') [-1] ''out'' ''gs://b/x'') = Inr False"
  by (simp add: is_parent_cmnode_def task_cmnode_def output_cmnode_def)

text \<open>
  Claim C1, amended: for two nodes of the same variant (two task nodes or two output
  nodes) the predicate returns \<^verbatim>\<open>False\<close>; it raises exactly when the type of one of
  the two nodes is neither \<^verbatim>\<open>task\<close> nor \<^verbatim>\<open>output\<close>.
\<close>

theorem is_parent_cmnode_same_variant:
  "(type n1 \<in> {''task'', ''output''} \<and> type n2 = type n1
      \<longrightarrow> is_parent_cmnode n1 n2 = Inr False)
   \<and> (isl (is_parent_cmnode n1 n2)
        \<longleftrightarrow> type n1 \<notin> {''task'', ''output''} \<or> type n2 \<notin> {''task'', ''output''})"
  by (auto simp: is_parent_cmnode_def)

theorem is_parent_cmnode_same_variant_witness:
  "type (task_cmnode ''wf.a'' [0] None None) \<in> {''task'', ''output''}
   \<and> type (task_cmnode ''wf.b'' [1] None None) = type (task_cmnode ''wf.a'' [0] None None)
   \<and> is_parent_cmnode (task_cmnode ''wf.a'' [0] None None) (task_cmnode ''wf.b'' [1] None None)
       = Inr False
   \<and> isl (is_parent_cmnode (task_cmnode ''wf.a'' [0] None None)
             ((task_cmnode ''wf.b'' [1] None None)\<lparr>type := ''workflow''\<rparr>))"
  using is_parent_cmnode_same_variant
          [of "task_cmnode ''wf.a'' [0] None None" "task_cmnode ''wf.b'' [1] None None"]
        is_parent_cmnode_same_variant
          [of "task_cmnode ''wf.a'' [0] None None"
              "(task_cmnode ''wf.b'' [1] None None)\<lparr>type := ''workflow''\<rparr>"]
  by (simp add: task_cmnode_def)

text \<open>
  Claim C2: for a task node \<open>t\<close> and an output node \<open>out\<close>, the predicate on
  \<open>(t, out)\<close> returns whether the task names and the shard indices are equal, and on
  \<open>(out, t)\<close> whether the output's path is the locator of one of the task's input
  triples (none when \<open>all_inputs\<close> is absent). Neither call raises.
\<close>

theorem is_parent_cmnode_task_output:
  assumes "type t = ''task''" and "type out = ''output''"
  shows "is_parent_cmnode t out
           = Inr (task_name t = task_name out \<and> shard_idx t = shard_idx out)
         \<and> is_parent_cmnode out t
           = Inr (\<exists>ins name path idx. all_inputs t = Some ins \<and> (name, path, idx) \<in> set ins
                    \<and> output_path out = Some path)"
  using assms by (force simp: is_parent_cmnode_def split: option.splits)

theorem is_parent_cmnode_task_output_witness:
  "is_parent_cmnode (task_cmnode ''wf.a'' [0] None (Some [(''x'', ''gs://b/x'', [-1])]))
       (output_cmnode (Some ''wf.a'') [0] ''out'' ''gs://b/y'') = Inr True
   \<and> is_parent_cmnode (output_cmnode None [-1] ''x'' ''gs://b/x'')
       (task_cmnode ''wf.a'' [0] None (Some [(''x'', ''gs://b/x'', [-1])])) = Inr True
   \<and> is_parent_cmnode (output_cmnode (Some ''wf.a'') [0] ''out'' ''gs://b/y'')
       (task_cmnode ''wf.a'' [0] None (Some [(''x'', ''gs://b/x'', [-1])])) = Inr False"
  using is_parent_cmnode_task_output
          [of "task_cmnode ''wf.a'' [0] None (Some [(''x'', ''gs://b/x'', [-1])])"
              "output_cmnode (Some ''wf.a'') [0] ''out'' ''gs://b/y''"]
        is_parent_cmnode_task_output
          [of "task_cmnode ''wf.a'' [0] None (Some [(''x'', ''gs://b/x'', [-1])])"
              "output_cmnode None [-1] ''x'' ''gs://b/x''"]
  by (simp add: task_cmnode_def output_cmnode_def if_files_def)

section \<open>The scanner: specification\<close>

text \<open>
  Claim C5: a string that the validator accepts gives one triple, with the dot-joined
  field path and the list index, or the sentinel \<open>[-1]\<close> outside any list; a mapping
  extends the field path with each key and a list extends the list index with each
  position and keeps the field path; other scalars and empty containers give nothing;
  the locators of the result are exactly the qualifying strings of the document, one
  triple each; and the document \<^verbatim>\<open>{"a": {"b": [L1, "not-a-locator"]}}\<close>, with a
  validator that accepts only \<^verbatim>\<open>L1\<close>, gives the single triple
  \<^verbatim>\<open>("a.b", L1, (0,))\<close>.
\<close>

theorem find_files_in_dict_scan:
  "find_files_in_dict is_valid (JStr s) parent list_idx
     = (if is_valid s
        then [(join ''.'' parent, s, if list_idx = [] then [-1] else list_idx)] else [])
   \<and> find_files_in_dict is_valid (JObj kvs) parent list_idx
     = concat (map (\<lambda>(k, v). find_files_in_dict is_valid v (parent @ [k]) list_idx) kvs)
   \<and> find_files_in_dict is_valid (JArr vs) parent list_idx
     = concat (map (\<lambda>j. find_files_in_dict is_valid (vs ! j) parent (list_idx @ [int j]))
                   [0..<length vs])
   \<and> find_files_in_dict is_valid JNull parent list_idx = []
   \<and> find_files_in_dict is_valid (JBool b) parent list_idx = []
   \<and> find_files_in_dict is_valid (JInt n) parent list_idx = []
   \<and> find_files_in_dict is_valid (JFloat x) parent list_idx = []
   \<and> find_files_in_dict is_valid (JObj []) parent list_idx = []
   \<and> find_files_in_dict is_valid (JArr []) parent list_idx = []
   \<and> map (\<lambda>(_, path, _). path) (find_files_in_dict is_valid d parent list_idx)
     = qualifying is_valid d
   \<and> (loc \<noteq> ''not-a-locator'' \<longrightarrow>
        find_files_in_dict (\<lambda>s. s = loc)
          (JObj [(''a'', JObj [(''b'', JArr [JStr loc, JStr ''not-a-locator''])])]) [] []
        = [(''a.b'', loc, [0])])"
proof (intro conjI)
  show "find_files_in_dict is_valid (JObj kvs) parent list_idx
     = concat (map (\<lambda>(k, v). find_files_in_dict is_valid v (parent @ [k]) list_idx) kvs)"
    by (simp add: find_files_items_concat)
  show "find_files_in_dict is_valid (JArr vs) parent list_idx
     = concat (map (\<lambda>j. find_files_in_dict is_valid (vs ! j) parent (list_idx @ [int j]))
                   [0..<length vs])"
    using find_files_enum_from [of is_valid 0 vs parent list_idx] by simp
  show "map (\<lambda>(_, path, _). path) (find_files_in_dict is_valid d parent list_idx)
     = qualifying is_valid d"
    by (rule locators_qualifying)
qed auto

theorem find_files_in_dict_scan_witness:
  "''gs://b/f'' \<noteq> ''not-a-locator''
   \<and> find_files_in_dict (\<lambda>s. s = ''gs://b/f'')
        (JObj [(''a'', JObj [(''b'', JArr [JStr ''gs://b/f'', JStr ''not-a-locator''])])]) [] []
      = [(''a.b'', ''gs://b/f'', [0])]
   \<and> qualifying (\<lambda>s. s = ''gs://b/f'')
        (JObj [(''a'', JObj [(''b'', JArr [JStr ''gs://b/f'', JStr ''not-a-locator''])])])
      = [''gs://b/f'']"
  using find_files_in_dict_scan [where loc = "''gs://b/f''" and is_valid = "\<lambda>s. s = ''gs://b/f''"
          and d = "JObj [(''a'', JObj [(''b'', JArr [JStr ''gs://b/f'', JStr ''not-a-locator''])])]"
          and parent = "[]" and list_idx = "[]"]
  by simp

section \<open>Strings\<close>

text \<open>The segments of a split: one more than the separators, and joining them gives the string back.\<close>

lemma split_not_Nil: "split sep s \<noteq> []"
  by (induction s) (auto split: list.splits)

lemma length_split: "length (split sep s) = Suc (length (filter (\<lambda>c. c = sep) s))"
  by (induction s) (auto split: list.splits simp: split_not_Nil)

lemma join_split: "join [sep] (split sep s) = s"
proof (induction s)
  case Nil
  then show ?case by simp
next
  case (Cons c s)
  obtain w ws where ws: "split sep s = w # ws"
    using split_not_Nil [of sep s] by (cases "split sep s") auto
  show ?case
  proof (cases "c = sep")
    case True
    then show ?thesis using Cons ws by simp
  next
    case False
    then show ?thesis using Cons ws by (cases ws) auto
  qed
qed

section \<open>The call-tree parser: lemmas\<close>

text \<open>A call name that the head of the loop rejects makes the whole parse raise.\<close>

lemma parse_calls_items_bad_name:
  "(name, cl) \<in> set cs \<Longrightarrow> isl (parse_call_name name) \<Longrightarrow> isl (parse_calls_items v cs pw ps)"
  by (induction cs) (auto split: sum.splits)

text \<open>Every node that the parser returns is a node of a leaf invocation below its chains.\<close>

lemma leaf_of_here:
  "shardIndex c = Some idx \<Longrightarrow> subWorkflowMetadata c = None \<Longrightarrow>
   n \<in> set (task_cmnodes v alias c idx pw ps) \<Longrightarrow> leaf_of v pw ps n"
  unfolding leaf_of_def
  by (rule exI [of _ "[]"], rule exI [of _ "[]"]) auto

lemma leaf_of_below:
  assumes "leaf_of v (pw @ [alias]) (ps @ [idx]) n"
  shows "leaf_of v pw ps n"
proof -
  from assms obtain rest more a c i where
    h: "length more = length rest" "shardIndex c = Some i" "subWorkflowMetadata c = None"
       "n \<in> set (task_cmnodes v a c i ((pw @ [alias]) @ rest) ((ps @ [idx]) @ more))"
    unfolding leaf_of_def by blast
  show ?thesis
    unfolding leaf_of_def
    apply (rule exI [of _ "alias # rest"], rule exI [of _ "idx # more"])
    using h by auto
qed

lemma parse_calls_leaf_nodes:
  "\<forall>ns. parse_calls v cs pw ps = Inr ns \<longrightarrow> (\<forall>n \<in> set ns. leaf_of v pw ps n)"
  "\<forall>ns. parse_calls_items v cs pw ps = Inr ns \<longrightarrow> (\<forall>n \<in> set ns. leaf_of v pw ps n)"
  "\<forall>ns. parse_call_list v al cl pw ps = Inr ns \<longrightarrow> (\<forall>n \<in> set ns. leaf_of v pw ps n)"
proof (induction v cs pw ps and v cs pw ps and v al cl pw ps
       rule: parse_calls_parse_calls_items_parse_call_list.induct)
  case (1 is_valid cs parent_workflows parent_workflow_shard_indices)
  then show ?case by (auto split: if_splits)
next
  case (2 is_valid pw ps)
  then show ?case by simp
next
  case (3 is_valid call_name call_list rest pw ps)
  then show ?case by (auto split: sum.splits)
next
  case (4 is_valid al pw ps)
  then show ?case by simp
next
  case (5 is_valid al c cl pw ps)
  show ?case
  proof (intro allI impI ballI)
    fix ns n
    assume r: "parse_call_list is_valid al (c # cl) pw ps = Inr ns" and n: "n \<in> set ns"
    from r obtain idx where idx: "shardIndex c = Some idx"
      by (auto split: option.splits)
    show "leaf_of is_valid pw ps n"
    proof (cases "subWorkflowMetadata c")
      case None
      with r idx obtain ms where ms: "parse_call_list is_valid al cl pw ps = Inr ms"
          and ns: "ns = task_cmnodes is_valid al c idx pw ps @ ms"
        by (auto split: sum.splits)
      from n ns consider "n \<in> set (task_cmnodes is_valid al c idx pw ps)" | "n \<in> set ms"
        by auto
      then show ?thesis
      proof cases
        case 1
        then show ?thesis using idx None by (rule leaf_of_here [rotated 2])
      next
        case 2
        then show ?thesis using "5.IH"(1) [OF idx None] ms by blast
      qed
    next
      case (Some sub)
      with r idx obtain sub_calls where sc: "calls sub = Some sub_calls"
        by (auto split: option.splits)
      with r idx Some obtain ks ms where
          ks: "parse_calls is_valid sub_calls (pw @ [al]) (ps @ [idx]) = Inr ks"
          and ms: "parse_call_list is_valid al cl pw ps = Inr ms" and ns: "ns = ks @ ms"
        by (auto split: sum.splits)
      from n ns consider "n \<in> set ks" | "n \<in> set ms" by auto
      then show ?thesis
      proof cases
        case 1
        then have "leaf_of is_valid (pw @ [al]) (ps @ [idx]) n"
          using "5.IH"(2) [OF idx Some sc] ks by blast
        then show ?thesis by (rule leaf_of_below)
      next
        case 2
        then show ?thesis using "5.IH"(3) [OF idx Some sc ks] ms by blast
      qed
    qed
  qed
qed

text \<open>The fields of the nodes of a leaf invocation.\<close>

lemma if_files_not_empty: "if_files fs \<noteq> Some []"
  by (auto simp: if_files_def split: option.splits list.splits)

lemma if_files_Some: "if_files fs = Some gs \<Longrightarrow> fs = Some gs"
  by (auto simp: if_files_def split: option.splits list.splits)

lemma task_cmnodes_fields:
  assumes "n \<in> set (task_cmnodes v al c idx pw ps)"
  shows "task_name n = Some (join ''.'' (none_free (pw @ [al])))"
    and "shard_idx n = ps @ [idx]"
    and "all_inputs n \<noteq> Some []" and "all_outputs n \<noteq> Some []"
  using assms
  by (auto simp: task_cmnodes_def Let_def task_cmnode_def output_cmnode_def if_files_not_empty
           split: option.splits)

lemma leaf_of_fields:
  assumes "leaf_of v pw ps n"
  shows "\<exists>rest more. rest \<noteq> [] \<and> length more = length rest
           \<and> task_name n = Some (join ''.'' (none_free (pw @ rest))) \<and> shard_idx n = ps @ more"
    and "all_inputs n \<noteq> Some []" and "all_outputs n \<noteq> Some []"
proof -
  from assms obtain rest more al c idx where
    h: "length more = length rest"
       "n \<in> set (task_cmnodes v al c idx (pw @ rest) (ps @ more))"
    unfolding leaf_of_def by blast
  have "task_name n = Some (join ''.'' (none_free (pw @ (rest @ [al]))))"
    and "shard_idx n = ps @ (more @ [idx])"
    using task_cmnodes_fields(1,2) [OF h(2)] by simp_all
  then show "\<exists>rest more. rest \<noteq> [] \<and> length more = length rest
           \<and> task_name n = Some (join ''.'' (none_free (pw @ rest))) \<and> shard_idx n = ps @ more"
    using h(1) by (intro exI [of _ "rest @ [al]"] exI [of _ "more @ [idx]"]) simp
  show "all_inputs n \<noteq> Some []" and "all_outputs n \<noteq> Some []"
    using task_cmnodes_fields(3,4) [OF h(2)] by simp_all
qed

lemma none_free_non_absent:
  "(\<forall>w. Some w \<in> set wfs \<longrightarrow> w \<noteq> []) \<Longrightarrow> none_free wfs = non_absent wfs"
  by (induction wfs) (auto simp: none_free_def non_absent_def split: option.splits)

text \<open>
  Both loops of the parser are sequential: the result for a list is the result for its
  front followed by the result for its back, and an exception in either is an
  exception of the whole.
\<close>

lemma parse_call_list_append:
  "parse_call_list v al (xs @ ys) pw ps =
     (case parse_call_list v al xs pw ps of
        Inl e \<Rightarrow> Inl e
      | Inr a \<Rightarrow> (case parse_call_list v al ys pw ps of
                    Inl e \<Rightarrow> Inl e
                  | Inr b \<Rightarrow> Inr (a @ b)))"
  by (induction xs) (auto split: option.splits sum.splits)

lemma parse_calls_items_append:
  "parse_calls_items v (pre @ post) pw ps =
     (case parse_calls_items v pre pw ps of
        Inl e \<Rightarrow> Inl e
      | Inr a \<Rightarrow> (case parse_calls_items v post pw ps of
                    Inl e \<Rightarrow> Inl e
                  | Inr b \<Rightarrow> Inr (a @ b)))"
  by (induction pre) (auto split: option.splits sum.splits)

text \<open>
  An invocation anywhere in a call mapping: the parse succeeds exactly when the parse
  of everything before it, of the invocation itself and of everything after it
  succeed, and the nodes are those of the three, in that order.
\<close>

lemma parse_calls_items_split:
  "parse_calls_items v (pre @ (call_name, xs @ c # ys) # post) pw ps = Inr ns
     \<longleftrightarrow> (\<exists>al a a' r b' b. parse_call_name call_name = Inr al
            \<and> parse_calls_items v pre pw ps = Inr a
            \<and> parse_call_list v al xs pw ps = Inr a'
            \<and> parse_call_list v al [c] pw ps = Inr r
            \<and> parse_call_list v al ys pw ps = Inr b'
            \<and> parse_calls_items v post pw ps = Inr b
            \<and> ns = a @ a' @ r @ b' @ b)"
proof -
  have cl: "parse_call_list v al (xs @ c # ys) pw ps = Inr m
      \<longleftrightarrow> (\<exists>a' r b'. parse_call_list v al xs pw ps = Inr a'
             \<and> parse_call_list v al [c] pw ps = Inr r
             \<and> parse_call_list v al ys pw ps = Inr b' \<and> m = a' @ r @ b')" for al m
    using parse_call_list_append [of v al xs "[c] @ ys" pw ps]
          parse_call_list_append [of v al "[c]" ys pw ps]
    by (auto split: sum.splits)
  have "parse_calls_items v (pre @ (call_name, xs @ c # ys) # post) pw ps = Inr ns
      \<longleftrightarrow> (\<exists>al a m b. parse_call_name call_name = Inr al
             \<and> parse_calls_items v pre pw ps = Inr a
             \<and> parse_call_list v al (xs @ c # ys) pw ps = Inr m
             \<and> parse_calls_items v post pw ps = Inr b \<and> ns = a @ m @ b)"
    by (auto simp: parse_calls_items_append split: sum.splits)
  then show ?thesis
    unfolding cl by (simp add: ex_simps [symmetric] del: ex_simps) blast
qed

lemma parse_calls_split:
  "parse_calls v (pre @ (call_name, xs @ c # ys) # post) pw ps = Inr ns
     \<longleftrightarrow> pw \<noteq> []
         \<and> (\<exists>al a a' r b' b. parse_call_name call_name = Inr al
            \<and> parse_calls v pre pw ps = Inr a
            \<and> parse_call_list v al xs pw ps = Inr a'
            \<and> parse_call_list v al [c] pw ps = Inr r
            \<and> parse_call_list v al ys pw ps = Inr b'
            \<and> parse_calls v post pw ps = Inr b
            \<and> ns = a @ a' @ r @ b' @ b)"
proof (cases "pw = []")
  case True
  then show ?thesis by simp
next
  case False
  then show ?thesis
    using parse_calls_items_split [of v pre call_name xs c ys post pw ps ns] by simp
qed

text \<open>
  The two kinds of invocation, alone in the inner loop.
\<close>

lemma parse_call_list_sub:
  assumes "shardIndex c = Some idx" and "subWorkflowMetadata c = Some sub"
    and "calls sub = Some sub_calls"
  shows "parse_call_list v al [c] pw ps = parse_calls v sub_calls (pw @ [al]) (ps @ [idx])"
  using assms by (simp split: sum.splits)

lemma parse_call_list_task:
  assumes "shardIndex c = Some idx" and "subWorkflowMetadata c = None"
  shows "parse_call_list v al [c] pw ps = Inr (task_cmnodes v al c idx pw ps)"
  using assms by simp

text \<open>
  The nodes of a leaf invocation: one task node, then one output node for each
  triple that the scanner finds in the outputs. A leaf invocation anywhere in a call
  mapping contributes exactly these nodes, between those of the invocations before
  it and those of the invocations after it.
\<close>

lemma task_cmnodes_nodes:
  "task_cmnodes v al c idx pw ps
     = \<lparr>type = ''task'', shard_idx = ps @ [idx],
        task_name = Some (join ''.'' (none_free (pw @ [al]))),
        output_name = None, output_path = None,
        all_outputs = if_files (map_option (\<lambda>d. find_files_in_dict v d [] []) (outputs c)),
        all_inputs = if_files (map_option (\<lambda>d. find_files_in_dict v d [] []) (inputs c))\<rparr>
       # map (\<lambda>(out_name, out_path, _).
                \<lparr>type = ''output'', shard_idx = ps @ [idx],
                 task_name = Some (join ''.'' (none_free (pw @ [al]))),
                 output_name = Some out_name, output_path = Some out_path,
                 all_outputs = None, all_inputs = None\<rparr>)
           (case outputs c of None \<Rightarrow> [] | Some d \<Rightarrow> find_files_in_dict v d [] [])"
  by (auto simp: task_cmnodes_def Let_def task_cmnode_def output_cmnode_def if_files_def
           split: option.splits list.splits)

lemma parse_calls_leaf_invocation:
  assumes "shardIndex c = Some idx" and "subWorkflowMetadata c = None"
  shows "parse_calls v (pre @ (call_name, xs @ c # ys) # post) pw ps = Inr ns
     \<longleftrightarrow> pw \<noteq> []
         \<and> (\<exists>al a a' b' b. parse_call_name call_name = Inr al
            \<and> parse_calls v pre pw ps = Inr a
            \<and> parse_call_list v al xs pw ps = Inr a'
            \<and> parse_call_list v al ys pw ps = Inr b'
            \<and> parse_calls v post pw ps = Inr b
            \<and> ns = a @ a' @ task_cmnodes v al c idx pw ps @ b' @ b)"
  unfolding parse_calls_split parse_call_list_task [OF assms] by auto

text \<open>
  The example of the specification: the call \<^verbatim>\<open>wf.taskA\<close> of the workflow \<^verbatim>\<open>wf\<close>, one
  invocation with shard index -1 and the outputs \<^verbatim>\<open>{"out1": P}\<close> for a valid \<^verbatim>\<open>P\<close>.
\<close>

lemma parse_calls_example:
  "v P \<Longrightarrow>
   parse_calls v
     [(''wf.taskA'', [Call (Some (-1)) None None (Some (JObj [(''out1'', JStr P)]))])]
     [Some ''wf''] []
   = Inr [\<lparr>type = ''task'', shard_idx = [-1], task_name = Some ''wf.taskA'',
           output_name = None, output_path = None,
           all_outputs = Some [(''out1'', P, [-1])], all_inputs = None\<rparr>,
          \<lparr>type = ''output'', shard_idx = [-1], task_name = Some ''wf.taskA'',
           output_name = Some ''out1'', output_path = Some P,
           all_outputs = None, all_inputs = None\<rparr>]"
  by (simp add: parse_call_name_def task_cmnodes_def task_cmnode_def output_cmnode_def
        none_free_def if_files_def Let_def)

section \<open>The call-tree parser: specification\<close>

text \<open>
  Claim C3: an invocation that carries a sub-workflow record adds no node of its own:
  the nodes of this invocation are exactly the result of parsing the sub-record's
  calls with the ancestor chain extended by the call's alias (\<open>None\<close> for a temporary
  scatter sub-workflow) and the shard chain extended by the invocation's shard index;
  with no calls in the sub-record there is no node at all. Every node of that parse has
  a name built from the extended ancestor chain and a shard index that extends the
  extended shard chain. For such an invocation anywhere in a call mapping, the parser
  succeeds exactly when the parse of what comes before it, the recursive parse and the
  parse of what comes after it succeed, and it returns the nodes of the recursive
  parse, all of them and nothing else for this invocation, between the nodes of the
  earlier and of the later invocations.
\<close>

theorem parse_call_list_subworkflow:
  assumes "shardIndex c = Some idx" and "subWorkflowMetadata c = Some sub"
    and "calls sub = Some sub_calls"
  shows "parse_call_list v al [c] pw ps = parse_calls v sub_calls (pw @ [al]) (ps @ [idx])
       \<and> parse_call_list v al (c # cl) pw ps
         = (case parse_calls v sub_calls (pw @ [al]) (ps @ [idx]) of
              Inl e \<Rightarrow> Inl e
            | Inr ns \<Rightarrow> (case parse_call_list v al cl pw ps of
                           Inl e \<Rightarrow> Inl e
                         | Inr ms \<Rightarrow> Inr (ns @ ms)))
       \<and> (sub_calls = [] \<longrightarrow> parse_call_list v al [c] pw ps = Inr [])
       \<and> (\<forall>ns n. parse_calls v sub_calls (pw @ [al]) (ps @ [idx]) = Inr ns \<and> n \<in> set ns \<longrightarrow>
            (\<exists>rest more. rest \<noteq> [] \<and> length more = length rest
               \<and> task_name n = Some (join ''.'' (none_free (pw @ [al] @ rest)))
               \<and> shard_idx n = ps @ [idx] @ more))
       \<and> (parse_calls v (pre @ (call_name, xs @ c # ys) # post) pw ps = Inr ns
            \<longleftrightarrow> pw \<noteq> []
                \<and> (\<exists>name a a' ks b' b. parse_call_name call_name = Inr name
                   \<and> parse_calls v pre pw ps = Inr a
                   \<and> parse_call_list v name xs pw ps = Inr a'
                   \<and> parse_calls v sub_calls (pw @ [name]) (ps @ [idx]) = Inr ks
                   \<and> parse_call_list v name ys pw ps = Inr b'
                   \<and> parse_calls v post pw ps = Inr b
                   \<and> ns = a @ a' @ ks @ b' @ b))"
proof (intro conjI allI impI)
  show one: "parse_call_list v al [c] pw ps = parse_calls v sub_calls (pw @ [al]) (ps @ [idx])"
    using assms by (rule parse_call_list_sub)
  show "parse_call_list v al (c # cl) pw ps
         = (case parse_calls v sub_calls (pw @ [al]) (ps @ [idx]) of
              Inl e \<Rightarrow> Inl e
            | Inr ns \<Rightarrow> (case parse_call_list v al cl pw ps of
                           Inl e \<Rightarrow> Inl e
                         | Inr ms \<Rightarrow> Inr (ns @ ms)))"
    using assms by simp
  show "parse_call_list v al [c] pw ps = Inr []" if "sub_calls = []"
    using one that by simp
  show "parse_calls v (pre @ (call_name, xs @ c # ys) # post) pw ps = Inr ns
            \<longleftrightarrow> pw \<noteq> []
                \<and> (\<exists>name a a' ks b' b. parse_call_name call_name = Inr name
                   \<and> parse_calls v pre pw ps = Inr a
                   \<and> parse_call_list v name xs pw ps = Inr a'
                   \<and> parse_calls v sub_calls (pw @ [name]) (ps @ [idx]) = Inr ks
                   \<and> parse_call_list v name ys pw ps = Inr b'
                   \<and> parse_calls v post pw ps = Inr b
                   \<and> ns = a @ a' @ ks @ b' @ b)"
    unfolding parse_calls_split parse_call_list_sub [OF assms] by (rule refl)
next
  fix ns n
  assume "parse_calls v sub_calls (pw @ [al]) (ps @ [idx]) = Inr ns \<and> n \<in> set ns"
  then have "leaf_of v (pw @ [al]) (ps @ [idx]) n"
    using parse_calls_leaf_nodes(1) by blast
  from leaf_of_fields(1) [OF this]
  show "\<exists>rest more. rest \<noteq> [] \<and> length more = length rest
               \<and> task_name n = Some (join ''.'' (none_free (pw @ [al] @ rest)))
               \<and> shard_idx n = ps @ [idx] @ more"
    by simp
qed

theorem parse_call_list_subworkflow_witness:
  "shardIndex (Call (Some 0)
       (Some (Metadata None None None (Some [(''sub.t'', [Call (Some (-1)) None None None])])))
       None None) = Some 0
   \<and> parse_call_list (\<lambda>s. True) (Some ''sub'')
       [Call (Some 0)
          (Some (Metadata None None None (Some [(''sub.t'', [Call (Some (-1)) None None None])])))
          None None] [Some ''wf''] []
     = Inr [\<lparr>type = ''task'', shard_idx = [0, -1], task_name = Some ''wf.sub.t'',
             output_name = None, output_path = None, all_outputs = None, all_inputs = None\<rparr>]
   \<and> parse_calls (\<lambda>s. True)
       ([(''wf.a'', [Call (Some (-1)) None None None])]
        @ (''wf.sub'',
           [Call (Some 1) None None None]
           @ Call (Some 0)
               (Some (Metadata None None None
                  (Some [(''sub.t'', [Call (Some (-1)) None None None])])))
               None None
           # [Call (Some 2) None None None])
        # [(''wf.z'', [Call (Some (-1)) None None None])])
       [Some ''wf''] []
     = Inr [\<lparr>type = ''task'', shard_idx = [-1], task_name = Some ''wf.a'',
             output_name = None, output_path = None, all_outputs = None, all_inputs = None\<rparr>,
            \<lparr>type = ''task'', shard_idx = [1], task_name = Some ''wf.sub'',
             output_name = None, output_path = None, all_outputs = None, all_inputs = None\<rparr>,
            \<lparr>type = ''task'', shard_idx = [0, -1], task_name = Some ''wf.sub.t'',
             output_name = None, output_path = None, all_outputs = None, all_inputs = None\<rparr>,
            \<lparr>type = ''task'', shard_idx = [2], task_name = Some ''wf.sub'',
             output_name = None, output_path = None, all_outputs = None, all_inputs = None\<rparr>,
            \<lparr>type = ''task'', shard_idx = [-1], task_name = Some ''wf.z'',
             output_name = None, output_path = None, all_outputs = None, all_inputs = None\<rparr>]"
  using parse_call_list_subworkflow
    [of "Call (Some 0)
          (Some (Metadata None None None (Some [(''sub.t'', [Call (Some (-1)) None None None])])))
          None None" 0
        "Metadata None None None (Some [(''sub.t'', [Call (Some (-1)) None None None])])"
        "[(''sub.t'', [Call (Some (-1)) None None None])]" "\<lambda>s. True" "Some ''sub''"
        "[Some ''wf'']" "[]" "[]"
        "[(''wf.a'', [Call (Some (-1)) None None None])]" "''wf.sub''"
        "[Call (Some 1) None None None]" "[Call (Some 2) None None None]"
        "[(''wf.z'', [Call (Some (-1)) None None None])]"]
  by (simp add: parse_call_name_def task_cmnodes_def task_cmnode_def none_free_def if_files_def
        Let_def)


text \<open>
  Claim C7: a call name with three or more dot-segments raises, and so does a name of
  one segment that does not start with \<^verbatim>\<open>ScatterAt\<close>; a mapping that holds such a
  name makes the parser raise. A name of exactly two segments is accepted with the
  second segment as alias, and a name of one segment that starts with \<^verbatim>\<open>ScatterAt\<close>
  is accepted with no alias. The segments are one more than the dots of the name.
\<close>

theorem parse_call_name_segments:
  "(3 \<le> length (split CHR ''.'' call_name)
      \<longrightarrow> parse_call_name call_name = Inl (ValueError ''Wrong call name format. Too many dots.''))
   \<and> (length (split CHR ''.'' call_name) = 1 \<and> \<not> prefix ''ScatterAt'' call_name
      \<longrightarrow> parse_call_name call_name
          = Inl (ValueError ''Wrong temporary call name format for a nested subworkflow.''))
   \<and> (length (split CHR ''.'' call_name) = 2
      \<longrightarrow> parse_call_name call_name = Inr (Some (split CHR ''.'' call_name ! 1)))
   \<and> (length (split CHR ''.'' call_name) = 1 \<and> prefix ''ScatterAt'' call_name
      \<longrightarrow> parse_call_name call_name = Inr None)
   \<and> length (split CHR ''.'' call_name) = Suc (length (filter (\<lambda>c. c = CHR ''.'') call_name))
   \<and> ((call_name, call_list) \<in> set cs
        \<and> (3 \<le> length (split CHR ''.'' call_name)
           \<or> length (split CHR ''.'' call_name) = 1 \<and> \<not> prefix ''ScatterAt'' call_name)
      \<longrightarrow> isl (parse_calls v cs pw ps))
   \<and> (pw \<noteq> []
        \<and> (length (split CHR ''.'' call_name) = 2
           \<or> length (split CHR ''.'' call_name) = 1 \<and> prefix ''ScatterAt'' call_name)
      \<longrightarrow> parse_calls v [(call_name, [])] pw ps = Inr [])"
proof (intro conjI impI)
  show "length (split CHR ''.'' call_name) = Suc (length (filter (\<lambda>c. c = CHR ''.'') call_name))"
    by (rule length_split)
  show "isl (parse_calls v cs pw ps)"
    if h: "(call_name, call_list) \<in> set cs
        \<and> (3 \<le> length (split CHR ''.'' call_name)
           \<or> length (split CHR ''.'' call_name) = 1 \<and> \<not> prefix ''ScatterAt'' call_name)"
  proof -
    from h have "isl (parse_call_name call_name)"
      by (auto simp: parse_call_name_def Let_def)
    with h have "isl (parse_calls_items v cs pw ps)"
      by (blast intro: parse_calls_items_bad_name)
    then show ?thesis by simp
  qed
  show "parse_calls v [(call_name, [])] pw ps = Inr []"
    if "pw \<noteq> []
        \<and> (length (split CHR ''.'' call_name) = 2
           \<or> length (split CHR ''.'' call_name) = 1 \<and> prefix ''ScatterAt'' call_name)"
    using that by (auto simp: parse_call_name_def Let_def)
qed (simp_all add: parse_call_name_def Let_def)

theorem parse_call_name_segments_witness:
  "3 \<le> length (split CHR ''.'' ''a.b.c'')
   \<and> parse_call_name ''a.b.c'' = Inl (ValueError ''Wrong call name format. Too many dots.'')
   \<and> isl (parse_calls (\<lambda>s. True) [(''wf.t'', []), (''a.b.c'', [])] [Some ''wf''] [])
   \<and> length (split CHR ''.'' ''task'') = 1 \<and> \<not> prefix ''ScatterAt'' ''task''
   \<and> parse_call_name ''task''
       = Inl (ValueError ''Wrong temporary call name format for a nested subworkflow.'')
   \<and> length (split CHR ''.'' ''wf.t'') = 2
   \<and> parse_call_name ''wf.t'' = Inr (Some ''t'')
   \<and> length (split CHR ''.'' ''ScatterAt12_3'') = 1 \<and> prefix ''ScatterAt'' ''ScatterAt12_3''
   \<and> parse_call_name ''ScatterAt12_3'' = Inr None"
  using parse_call_name_segments
          [of "''a.b.c''" "[]" "[(''wf.t'', []), (''a.b.c'', [])]" "\<lambda>s. True" "[Some ''wf'']" "[]"]
        parse_call_name_segments [of "''task''"]
        parse_call_name_segments [of "''wf.t''"]
        parse_call_name_segments [of "''ScatterAt12_3''"]
  by simp

text \<open>
  Claim C10: in every node that the parser returns, \<open>all_inputs\<close> and \<open>all_outputs\<close>
  are absent or a non-empty sequence, never the empty sequence. For a leaf invocation,
  a missing \<^verbatim>\<open>inputs\<close> or \<^verbatim>\<open>outputs\<close> key and a block in which the scanner finds
  nothing both give an absent field, and a task whose \<open>all_outputs\<close> is absent is
  followed by no output node.
\<close>

theorem task_files_absent_or_non_empty:
  "(parse_calls v cs pw ps = Inr ns \<and> n \<in> set ns
      \<longrightarrow> all_inputs n \<noteq> Some [] \<and> all_outputs n \<noteq> Some [])
   \<and> (\<exists>t outs. task_cmnodes v al c idx pw ps = t # outs
         \<and> type t = ''task'' \<and> (\<forall>out \<in> set outs. type out = ''output'')
         \<and> (inputs c = None \<longrightarrow> all_inputs t = None)
         \<and> (outputs c = None \<longrightarrow> all_outputs t = None)
         \<and> (\<forall>d. inputs c = Some d \<and> find_files_in_dict v d [] [] = [] \<longrightarrow> all_inputs t = None)
         \<and> (\<forall>d. outputs c = Some d \<and> find_files_in_dict v d [] [] = [] \<longrightarrow> all_outputs t = None)
         \<and> (all_outputs t = None \<longrightarrow> outs = []))"
proof (intro conjI impI)
  show "all_inputs n \<noteq> Some []" and "all_outputs n \<noteq> Some []"
    if "parse_calls v cs pw ps = Inr ns \<and> n \<in> set ns"
  proof -
    from that have "leaf_of v pw ps n"
      using parse_calls_leaf_nodes(1) by blast
    then show "all_inputs n \<noteq> Some []" and "all_outputs n \<noteq> Some []"
      by (rule leaf_of_fields(2), rule leaf_of_fields(3))
  qed
  show "\<exists>t outs. task_cmnodes v al c idx pw ps = t # outs
         \<and> type t = ''task'' \<and> (\<forall>out \<in> set outs. type out = ''output'')
         \<and> (inputs c = None \<longrightarrow> all_inputs t = None)
         \<and> (outputs c = None \<longrightarrow> all_outputs t = None)
         \<and> (\<forall>d. inputs c = Some d \<and> find_files_in_dict v d [] [] = [] \<longrightarrow> all_inputs t = None)
         \<and> (\<forall>d. outputs c = Some d \<and> find_files_in_dict v d [] [] = [] \<longrightarrow> all_outputs t = None)
         \<and> (all_outputs t = None \<longrightarrow> outs = [])"
    by (auto simp: task_cmnodes_def Let_def task_cmnode_def output_cmnode_def if_files_def
             split: option.splits list.splits)
qed

theorem task_files_absent_or_non_empty_witness:
  "parse_calls (\<lambda>s. s = ''gs://b/o'')
       [(''wf.t'', [Call (Some (-1)) None (Some (JObj [(''n'', JInt 3)])) (Some (JStr ''gs://b/o'')),
                    Call (Some 0) None None (Some (JArr []))])] [Some ''wf''] []
     = Inr [\<lparr>type = ''task'', shard_idx = [-1], task_name = Some ''wf.t'',
             output_name = None, output_path = None,
             all_outputs = Some [([], ''gs://b/o'', [-1])], all_inputs = None\<rparr>,
            \<lparr>type = ''output'', shard_idx = [-1], task_name = Some ''wf.t'',
             output_name = Some [], output_path = Some ''gs://b/o'',
             all_outputs = None, all_inputs = None\<rparr>,
            \<lparr>type = ''task'', shard_idx = [0], task_name = Some ''wf.t'',
             output_name = None, output_path = None,
             all_outputs = None, all_inputs = None\<rparr>]
   \<and> all_inputs \<lparr>type = ''task'', shard_idx = [0], task_name = Some ''wf.t'',
             output_name = None, output_path = None,
             all_outputs = None, all_inputs = None\<rparr> \<noteq> Some []"
  using task_files_absent_or_non_empty
    [of "\<lambda>s. s = ''gs://b/o''"
        "[(''wf.t'', [Call (Some (-1)) None (Some (JObj [(''n'', JInt 3)])) (Some (JStr ''gs://b/o'')),
                      Call (Some 0) None None (Some (JArr []))])]"
        "[Some ''wf'']" "[]"
        "[\<lparr>type = ''task'', shard_idx = [-1], task_name = Some ''wf.t'',
             output_name = None, output_path = None,
             all_outputs = Some [([], ''gs://b/o'', [-1])], all_inputs = None\<rparr>,
            \<lparr>type = ''output'', shard_idx = [-1], task_name = Some ''wf.t'',
             output_name = Some [], output_path = Some ''gs://b/o'',
             all_outputs = None, all_inputs = None\<rparr>,
            \<lparr>type = ''task'', shard_idx = [0], task_name = Some ''wf.t'',
             output_name = None, output_path = None,
             all_outputs = None, all_inputs = None\<rparr>]"
        "\<lparr>type = ''task'', shard_idx = [0], task_name = Some ''wf.t'',
             output_name = None, output_path = None,
             all_outputs = None, all_inputs = None\<rparr>"]
  by (simp add: parse_call_name_def task_cmnodes_def task_cmnode_def output_cmnode_def
        none_free_def if_files_def Let_def)

section \<open>The output-definition lookup and the graph builder: lemmas\<close>

text \<open>
  The loop over the lines keeps, in order, the stripped first group of every line
  that matches, unless it is empty.
\<close>

lemma find_val_lines_filter:
  "find_val_lines regex_val lines =
     [strip (hd (regex_val line)). line \<leftarrow> lines, regex_val line \<noteq> [],
        strip (hd (regex_val line)) \<noteq> []]"
  by (induction lines) (auto split: list.splits simp: Let_def)

text \<open>
  Neither the meta lookup nor the whole lookup raises, whatever the parser does.
\<close>

lemma find_workflow_meta_total: "\<exists>r. find_workflow_meta pd w key = Inr r"
  by (auto simp: find_workflow_meta_def split: sum.splits option.splits)

lemma find_out_def_from_wdl_total: "\<exists>r. find_out_def_from_wdl pd w = Inr r"
  using find_workflow_meta_total [of pd w WDL_WORKFLOW_META_OUT_DEF]
  by (auto simp: find_out_def_from_wdl_def split: list.splits)

text \<open>
  The meta lookup gives \<^verbatim>\<open>None\<close> exactly when the parser fails, the document has no
  workflow, the key is missing, or its value is \<^verbatim>\<open>None\<close>.
\<close>

lemma find_workflow_meta_null:
  "find_workflow_meta pd s key = Inr JNull
     \<longleftrightarrow> (\<forall>wdl w. pd s = Inr wdl \<and> workflow wdl = Some w \<longrightarrow> meta w key \<in> {None, Some JNull})"
proof (cases "pd s")
  case (Inl e)
  then show ?thesis by (simp add: find_workflow_meta_def find_workflow_meta_try_def)
next
  case (Inr wdl)
  show ?thesis
  proof (cases "workflow wdl")
    case None
    with Inr show ?thesis by (simp add: find_workflow_meta_def find_workflow_meta_try_def)
  next
    case (Some w)
    with Inr show ?thesis
      by (cases "meta w key") (simp_all add: find_workflow_meta_def find_workflow_meta_try_def)
  qed
qed

lemma find_out_def_meta:
  "parse_document wdl_str = Inr wdl \<Longrightarrow> workflow wdl = Some w \<Longrightarrow>
   meta w WDL_WORKFLOW_META_OUT_DEF = Some val \<Longrightarrow> val \<noteq> JNull \<Longrightarrow>
   find_out_def_from_wdl parse_document wdl_str = Inr val"
  by (simp add: find_out_def_from_wdl_def find_workflow_meta_def find_workflow_meta_try_def)

lemma find_out_def_fallback:
  "find_workflow_meta pd w WDL_WORKFLOW_META_OUT_DEF = Inr JNull \<Longrightarrow>
   find_out_def_from_wdl pd w
     = Inr (case find_val_from_wdl RE_PATTERN_WDL_COMMENT_OUT_DEF_JSON w of
              [] \<Rightarrow> JNull | r0 # _ \<Rightarrow> JStr r0)"
  by (simp add: find_out_def_from_wdl_def split: list.splits)

text \<open>
  The comment convention: a line \<^verbatim>\<open># CROO out_def value\<close> matches with the value as
  its group.
\<close>

lemma out_def_comment:
  "x \<noteq> [] \<Longrightarrow> RE_PATTERN_WDL_COMMENT_OUT_DEF_JSON (''# CROO out_def '' @ x) = [x]"
  by (cases x) (simp_all add: RE_PATTERN_WDL_COMMENT_OUT_DEF_JSON_def isspace_def Let_def)

text \<open>
  White space beyond ASCII: a no-break space after the hash sign and at the end of
  the line.
\<close>

lemma nbsp_comment:
  "RE_PATTERN_WDL_COMMENT_OUT_DEF_JSON (''#'' @ [CHR 0xA0] @ ''CROO out_def a.json'') = [''a.json'']"
  by (simp add: RE_PATTERN_WDL_COMMENT_OUT_DEF_JSON_def isspace_def Let_def)

lemma nbsp_strip: "strip (''a.json'' @ [CHR 0xA0, CHR 0x85]) = ''a.json''"
  by (simp add: strip_def isspace_def)

lemma find_out_def_from_wdl_nbsp:
  "find_out_def_from_wdl (\<lambda>s. Inl (CollaboratorError ''SyntaxError''))
     (''#'' @ [CHR 0xA0] @ ''CROO out_def a.json'' @ [CHR 0xA0])
   = Inr (JStr ''a.json'')"
  by (simp add: find_out_def_from_wdl_def find_workflow_meta_def find_workflow_meta_try_def
        find_val_from_wdl_def RE_PATTERN_WDL_COMMENT_OUT_DEF_JSON_def isspace_def strip_def
        Let_def)

text \<open>
  The nodes of the submitted inputs, and the graph as a function of the metadata
  alone: the workflow-source parser has no influence on it.
\<close>

lemma parse_input_json_map:
  "parse_input_json v j =
     map (\<lambda>(file_name, file_path, idx). output_cmnode None idx file_name file_path)
       (find_files_in_dict v j [] [])"
  by (cases j) (simp_all add: parse_input_json_def)

lemma init_graph_dag_independent:
  "map_sum id self_dag (init_graph v md j ws r) = map_sum id self_dag (init_graph v md j ws r')"
  by (simp add: init_graph_def split: option.splits sum.splits)

lemma init_dag_independent:
  "map_sum id self_dag (init v jl pd md) = map_sum id self_dag (init v jl pd' md)"
proof (cases "submittedFiles md")
  case None
  then show ?thesis by (simp add: init_def)
next
  case sf: (Some sf)
  show ?thesis
  proof (cases "sf_inputs sf")
    case None
    with sf show ?thesis by (simp add: init_def)
  next
    case s: (Some s)
    show ?thesis
    proof (cases "jl s")
      case (Inl e)
      with sf s show ?thesis by (simp add: init_def)
    next
      case j: (Inr j)
      show ?thesis
      proof (cases "sf_workflow sf")
        case None
        with sf s j show ?thesis by (simp add: init_def)
      next
        case w: (Some w)
        obtain r r' where "find_out_def_from_wdl pd w = Inr r"
            and "find_out_def_from_wdl pd' w = Inr r'"
          using find_out_def_from_wdl_total [of pd w] find_out_def_from_wdl_total [of pd' w]
          by blast
        with sf s j w show ?thesis
          by (simp add: init_def init_graph_dag_independent [of v md j "Some w" r r'])
      qed
    qed
  qed
qed

section \<open>The graph builder: specification\<close>

text \<open>
  Claim C6, as stated: the nodes of the submitted inputs have no owning task and an
  absent or empty \<open>shard_idx\<close>. The code stores the list index of the scanner's
  triple in \<open>shard_idx\<close>: the sentinel \<open>[-1]\<close> for a locator outside any list, the
  positions inside the enclosing lists otherwise.
\<close>

theorem parse_input_json_shard_idx_counterexample:
  "parse_input_json ((=) ''gs://b/x'') (JObj [(''fastq'', JStr ''gs://b/x'')])
     = [\<lparr>type = ''output'', shard_idx = [-1], task_name = None, output_name = Some ''fastq'',
         output_path = Some ''gs://b/x'', all_outputs = None, all_inputs = None\<rparr>]
   \<and> parse_input_json ((=) ''gs://b/x'') (JObj [(''fastqs'', JArr [JInt 0, JStr ''gs://b/x''])])
     = [\<lparr>type = ''output'', shard_idx = [1], task_name = None, output_name = Some ''fastqs'',
         output_path = Some ''gs://b/x'', all_outputs = None, all_inputs = None\<rparr>]"
  by (simp add: parse_input_json_def output_cmnode_def)

text \<open>
  Claim C6, amended: when the metadata carries the submitted inputs, the graph
  builder adds, after the nodes of the calls, one output node for each locator that
  the scanner finds in the decoded inputs, in order; each has no owning task, the
  field path as \<open>output_name\<close>, the locator as \<open>output_path\<close>, and the list index of
  the scanner's triple as \<open>shard_idx\<close>, which is never empty.
\<close>

theorem parse_input_json_nodes:
  "parse_input_json v input_json
     = map (\<lambda>(file_name, file_path, idx).
              \<lparr>type = ''output'', shard_idx = idx, task_name = None,
               output_name = Some file_name, output_path = Some file_path,
               all_outputs = None, all_inputs = None\<rparr>)
         (find_files_in_dict v input_json [] [])
   \<and> map output_path (parse_input_json v input_json) = map Some (qualifying v input_json)
   \<and> (\<forall>n \<in> set (parse_input_json v input_json).
         type n = ''output'' \<and> task_name n = None \<and> shard_idx n \<noteq> [])
   \<and> (submittedFiles metadata_json = Some sf \<and> sf_inputs sf = Some s \<and> json_loads s = Inr j
        \<and> init v json_loads parse_document metadata_json = Inr st
      \<longrightarrow> (\<exists>cs name ns. calls metadata_json = Some cs \<and> workflowName metadata_json = Some name
             \<and> parse_calls v cs [Some name] [] = Inr ns
             \<and> self_dag st = ns @ parse_input_json v j))"
proof (intro conjI impI ballI)
  show m: "parse_input_json v input_json
     = map (\<lambda>(file_name, file_path, idx).
              \<lparr>type = ''output'', shard_idx = idx, task_name = None,
               output_name = Some file_name, output_path = Some file_path,
               all_outputs = None, all_inputs = None\<rparr>)
         (find_files_in_dict v input_json [] [])"
    by (simp add: parse_input_json_map output_cmnode_def)
  have "map output_path (parse_input_json v input_json)
          = map Some (map (\<lambda>(_, path, _). path) (find_files_in_dict v input_json [] []))"
    unfolding m by (simp add: comp_def case_prod_unfold)
  then show "map output_path (parse_input_json v input_json) = map Some (qualifying v input_json)"
    by (simp only: locators_qualifying(1))
  fix n assume "n \<in> set (parse_input_json v input_json)"
  then obtain t where t: "t \<in> set (find_files_in_dict v input_json [] [])"
    and n: "n = output_cmnode None (snd (snd t)) (fst t) (fst (snd t))"
    unfolding parse_input_json_map by (auto simp: case_prod_unfold)
  from t have "snd (snd t) \<noteq> []" using list_idx_of(1) by blast
  with n show "type n = ''output''" and "task_name n = None" and "shard_idx n \<noteq> []"
    by (simp_all add: output_cmnode_def)
next
  assume h: "submittedFiles metadata_json = Some sf \<and> sf_inputs sf = Some s \<and> json_loads s = Inr j
        \<and> init v json_loads parse_document metadata_json = Inr st"
  then show "\<exists>cs name ns. calls metadata_json = Some cs \<and> workflowName metadata_json = Some name
             \<and> parse_calls v cs [Some name] [] = Inr ns
             \<and> self_dag st = ns @ parse_input_json v j"
    by (auto simp: init_def init_graph_def split: option.splits sum.splits)
qed

theorem parse_input_json_nodes_witness:
  "submittedFiles
       (Metadata (Some \<lparr>sf_inputs = Some ''in'', sf_workflow = Some ''# CROO out_def a.json''\<rparr>)
          (Some ''id0'') (Some ''wf'') (Some [(''wf.t'', [Call (Some (-1)) None None None])]))
     = Some \<lparr>sf_inputs = Some ''in'', sf_workflow = Some ''# CROO out_def a.json''\<rparr>
   \<and> init (\<lambda>s. True) (\<lambda>s. Inr (JObj [(''fastqs'', JArr [JStr ''gs://b/x''])]))
        (\<lambda>s. Inl (CollaboratorError ''SyntaxError''))
        (Metadata (Some \<lparr>sf_inputs = Some ''in'', sf_workflow = Some ''# CROO out_def a.json''\<rparr>)
          (Some ''id0'') (Some ''wf'') (Some [(''wf.t'', [Call (Some (-1)) None None None])]))
     = Inr \<lparr>self_input_json = JObj [(''fastqs'', JArr [JStr ''gs://b/x''])],
            self_wdl_str = Some ''# CROO out_def a.json'',
            self_out_def_json_file = JStr ''a.json'', self_workflow_id = ''id0'',
            self_dag =
              [\<lparr>type = ''task'', shard_idx = [-1], task_name = Some ''wf.t'',
                output_name = None, output_path = None, all_outputs = None, all_inputs = None\<rparr>,
               \<lparr>type = ''output'', shard_idx = [0], task_name = None,
                output_name = Some ''fastqs'', output_path = Some ''gs://b/x'',
                all_outputs = None, all_inputs = None\<rparr>]\<rparr>"
  using parse_input_json_nodes
    [of "\<lambda>s. True" "JObj [(''fastqs'', JArr [JStr ''gs://b/x''])]"
        "Metadata (Some \<lparr>sf_inputs = Some ''in'', sf_workflow = Some ''# CROO out_def a.json''\<rparr>)
          (Some ''id0'') (Some ''wf'') (Some [(''wf.t'', [Call (Some (-1)) None None None])])"
        "\<lparr>sf_inputs = Some ''in'', sf_workflow = Some ''# CROO out_def a.json''\<rparr>"
        "''in''" "\<lambda>s. Inr (JObj [(''fastqs'', JArr [JStr ''gs://b/x''])])"
        "JObj [(''fastqs'', JArr [JStr ''gs://b/x''])]"
        "\<lambda>s. Inl (CollaboratorError ''SyntaxError'')"]
  by (simp add: init_def init_graph_def find_out_def_from_wdl_def find_workflow_meta_def
        find_workflow_meta_try_def find_val_from_wdl_def
        RE_PATTERN_WDL_COMMENT_OUT_DEF_JSON_def isspace_def strip_def Let_def
        parse_call_name_def task_cmnodes_def task_cmnode_def output_cmnode_def
        none_free_def if_files_def parse_input_json_def)

section \<open>The output-definition lookup: specification\<close>

text \<open>
  Claim C8, as stated: when the meta key and a matching comment are both present,
  the lookup returns the meta value. The code tests the result of the meta lookup
  against \<^verbatim>\<open>None\<close>, so a key whose value is \<^verbatim>\<open>None\<close> counts as missing and the
  comment wins.
\<close>

theorem find_out_def_from_wdl_null_meta_counterexample:
  "find_out_def_from_wdl
       (\<lambda>s. Inr \<lparr>workflow = Some \<lparr>meta = [''croo_out_def'' \<mapsto> JNull]\<rparr>\<rparr>)
       ''# CROO out_def a.json''
     = Inr (JStr ''a.json'')"
  by (simp add: find_out_def_from_wdl_def find_workflow_meta_def find_workflow_meta_try_def
        WDL_WORKFLOW_META_OUT_DEF_def find_val_from_wdl_def
        RE_PATTERN_WDL_COMMENT_OUT_DEF_JSON_def isspace_def strip_def Let_def)

text \<open>
  Claim C8, amended: when the meta key \<^verbatim>\<open>croo_out_def\<close> is present with a value other
  than \<^verbatim>\<open>None\<close>, the lookup returns that value, whatever the source text holds. The
  comments are scanned only when the meta lookup gives \<^verbatim>\<open>None\<close> (the parser failed,
  there is no workflow, the key is missing or its value is \<^verbatim>\<open>None\<close>), and the lookup
  then returns the first matched value that is not empty after stripping, or \<^verbatim>\<open>None\<close>
  when there is none.
\<close>

theorem find_out_def_from_wdl_order:
  "(parse_document wdl_str = Inr wdl \<and> workflow wdl = Some w
      \<and> meta w WDL_WORKFLOW_META_OUT_DEF = Some val \<and> val \<noteq> JNull
      \<longrightarrow> find_out_def_from_wdl parse_document wdl_str = Inr val)
   \<and> (find_workflow_meta parse_document wdl_str WDL_WORKFLOW_META_OUT_DEF = Inr JNull
      \<longrightarrow> find_out_def_from_wdl parse_document wdl_str
          = Inr (case [strip (hd (RE_PATTERN_WDL_COMMENT_OUT_DEF_JSON line)).
                         line \<leftarrow> split CHR 0x0A wdl_str,
                         RE_PATTERN_WDL_COMMENT_OUT_DEF_JSON line \<noteq> [],
                         strip (hd (RE_PATTERN_WDL_COMMENT_OUT_DEF_JSON line)) \<noteq> []] of
                   [] \<Rightarrow> JNull
                 | r0 # _ \<Rightarrow> JStr r0))
   \<and> (find_workflow_meta parse_document wdl_str WDL_WORKFLOW_META_OUT_DEF = Inr JNull
        \<longleftrightarrow> (\<forall>wdl w. parse_document wdl_str = Inr wdl \<and> workflow wdl = Some w
               \<longrightarrow> meta w WDL_WORKFLOW_META_OUT_DEF \<in> {None, Some JNull}))
   \<and> WDL_WORKFLOW_META_OUT_DEF = ''croo_out_def''
   \<and> (x \<noteq> [] \<longrightarrow> RE_PATTERN_WDL_COMMENT_OUT_DEF_JSON (''# CROO out_def '' @ x) = [x])"
proof (intro conjI impI)
  show "find_out_def_from_wdl parse_document wdl_str = Inr val"
    if "parse_document wdl_str = Inr wdl \<and> workflow wdl = Some w
      \<and> meta w WDL_WORKFLOW_META_OUT_DEF = Some val \<and> val \<noteq> JNull"
    using that by (blast intro: find_out_def_meta)
  show "find_out_def_from_wdl parse_document wdl_str
          = Inr (case [strip (hd (RE_PATTERN_WDL_COMMENT_OUT_DEF_JSON line)).
                         line \<leftarrow> split CHR 0x0A wdl_str,
                         RE_PATTERN_WDL_COMMENT_OUT_DEF_JSON line \<noteq> [],
                         strip (hd (RE_PATTERN_WDL_COMMENT_OUT_DEF_JSON line)) \<noteq> []] of
                   [] \<Rightarrow> JNull
                 | r0 # _ \<Rightarrow> JStr r0)"
    if "find_workflow_meta parse_document wdl_str WDL_WORKFLOW_META_OUT_DEF = Inr JNull"
    using find_out_def_fallback [OF that]
    by (simp only: find_val_from_wdl_def find_val_lines_filter)
  show "find_workflow_meta parse_document wdl_str WDL_WORKFLOW_META_OUT_DEF = Inr JNull
        \<longleftrightarrow> (\<forall>wdl w. parse_document wdl_str = Inr wdl \<and> workflow wdl = Some w
               \<longrightarrow> meta w WDL_WORKFLOW_META_OUT_DEF \<in> {None, Some JNull})"
    by (rule find_workflow_meta_null)
  show "WDL_WORKFLOW_META_OUT_DEF = ''croo_out_def''"
    by (rule WDL_WORKFLOW_META_OUT_DEF_def)
  show "RE_PATTERN_WDL_COMMENT_OUT_DEF_JSON (''# CROO out_def '' @ x) = [x]" if "x \<noteq> []"
    using that by (rule out_def_comment)
qed

theorem find_out_def_from_wdl_order_witness:
  "find_out_def_from_wdl
       (\<lambda>s. Inr \<lparr>workflow = Some \<lparr>meta = [''croo_out_def'' \<mapsto> JStr ''m.json'']\<rparr>\<rparr>)
       ''# CROO out_def a.json''
     = Inr (JStr ''m.json'')"
  using find_out_def_from_wdl_order
    [of "\<lambda>s. Inr \<lparr>workflow = Some \<lparr>meta = [''croo_out_def'' \<mapsto> JStr ''m.json'']\<rparr>\<rparr>"
        "''# CROO out_def a.json''"
        "\<lparr>workflow = Some \<lparr>meta = [''croo_out_def'' \<mapsto> JStr ''m.json'']\<rparr>\<rparr>"
        "\<lparr>meta = [''croo_out_def'' \<mapsto> JStr ''m.json'']\<rparr>" "JStr ''m.json''",
     THEN conjunct1]
  by (simp add: WDL_WORKFLOW_META_OUT_DEF_def)

text \<open>
  Claim C9, as stated: a failure while locating the reference, such as a failure of
  the workflow-source parser, yields absence. The failure is absorbed by the meta
  lookup only: the lookup goes on to the comments, and returns the value of a
  matching comment.
\<close>

theorem find_out_def_from_wdl_failure_counterexample:
  "isl ((\<lambda>s. Inl (CollaboratorError ''SyntaxError'') :: error + wdl_document)
          ''# CROO out_def a.json'')
   \<and> find_out_def_from_wdl (\<lambda>s. Inl (CollaboratorError ''SyntaxError''))
        ''# CROO out_def a.json''
     = Inr (JStr ''a.json'')"
  by (simp add: find_out_def_from_wdl_def find_workflow_meta_def find_workflow_meta_try_def
        find_val_from_wdl_def RE_PATTERN_WDL_COMMENT_OUT_DEF_JSON_def isspace_def strip_def
        Let_def)

text \<open>
  Claim C9, amended: a failure inside the meta lookup (the parser raises, or the
  document has no workflow) never propagates: the meta lookup returns \<^verbatim>\<open>None\<close>, and
  the whole lookup returns what the scan of the comments finds, \<^verbatim>\<open>None\<close> when no
  comment matches. The lookup as a whole never raises, and the graph and the outcome
  of its construction do not depend on the parser.
\<close>

theorem find_workflow_meta_absorbs:
  "(\<exists>r. find_workflow_meta pd w key = Inr r)
   \<and> (isl (find_workflow_meta_try pd w key) \<longrightarrow> find_workflow_meta pd w key = Inr JNull)
   \<and> (isl (pd w) \<longrightarrow> isl (find_workflow_meta_try pd w key))
   \<and> (pd w = Inr wdl \<and> workflow wdl = None \<longrightarrow> isl (find_workflow_meta_try pd w key))
   \<and> (\<exists>r. find_out_def_from_wdl pd w = Inr r)
   \<and> (isl (find_workflow_meta_try pd w WDL_WORKFLOW_META_OUT_DEF)
      \<longrightarrow> find_out_def_from_wdl pd w
          = Inr (case find_val_from_wdl RE_PATTERN_WDL_COMMENT_OUT_DEF_JSON w of
                   [] \<Rightarrow> JNull
                 | r0 # _ \<Rightarrow> JStr r0))
   \<and> map_sum id self_dag (init v jl pd md) = map_sum id self_dag (init v jl pd' md)"
proof (intro conjI impI)
  show "\<exists>r. find_workflow_meta pd w key = Inr r"
    by (rule find_workflow_meta_total)
  show a: "find_workflow_meta pd w key = Inr JNull" if "isl (find_workflow_meta_try pd w key)"
    for key
    using that by (cases "find_workflow_meta_try pd w key") (simp_all add: find_workflow_meta_def)
  show "isl (find_workflow_meta_try pd w key)" if "isl (pd w)"
    using that by (cases "pd w") (simp_all add: find_workflow_meta_try_def)
  show "isl (find_workflow_meta_try pd w key)" if "pd w = Inr wdl \<and> workflow wdl = None"
    using that by (simp add: find_workflow_meta_try_def)
  show "\<exists>r. find_out_def_from_wdl pd w = Inr r"
    by (rule find_out_def_from_wdl_total)
  show "find_out_def_from_wdl pd w
          = Inr (case find_val_from_wdl RE_PATTERN_WDL_COMMENT_OUT_DEF_JSON w of
                   [] \<Rightarrow> JNull
                 | r0 # _ \<Rightarrow> JStr r0)"
    if "isl (find_workflow_meta_try pd w WDL_WORKFLOW_META_OUT_DEF)"
    using a [OF that] by (rule find_out_def_fallback)
  show "map_sum id self_dag (init v jl pd md) = map_sum id self_dag (init v jl pd' md)"
    by (rule init_dag_independent)
qed

theorem find_workflow_meta_absorbs_witness:
  "isl ((\<lambda>s. Inl (CollaboratorError ''SyntaxError'') :: error + wdl_document) ''workflow w {'')
   \<and> find_workflow_meta (\<lambda>s. Inl (CollaboratorError ''SyntaxError'')) ''workflow w {''
        ''croo_out_def'' = Inr JNull"
proof -
  note t = find_workflow_meta_absorbs
    [of "\<lambda>s. Inl (CollaboratorError ''SyntaxError'')" "''workflow w {''" "''croo_out_def''"]
  have h: "isl ((\<lambda>s. Inl (CollaboratorError ''SyntaxError'') :: error + wdl_document)
                  ''workflow w {'')"
    by simp
  with t have "isl (find_workflow_meta_try (\<lambda>s. Inl (CollaboratorError ''SyntaxError''))
                      ''workflow w {'' ''croo_out_def'')"
    by blast
  with t have "find_workflow_meta (\<lambda>s. Inl (CollaboratorError ''SyntaxError'')) ''workflow w {''
        ''croo_out_def'' = Inr JNull"
    by blast
  with h show ?thesis by simp
qed

end
